theory Spec2Isabelle
  imports Complex_Main
begin

section \<open>Values, positions and errors\<close>

text \<open>
  A board is a JavaScript array of rows of numbers. Positions carry integer row and
  column, because the code adds direction offsets before it checks the bounds.
  A \<open>throw\<close> of the source is the left injection of a sum.
\<close>

type_synonym board = "int list list"

record position =
  row :: int
  col :: int

datatype error =
    TypeError
  | Error string
  | UndefinedCell

text \<open>
  \<open>TypeError\<close>: a property read on \<open>null\<close> or \<open>undefined\<close>.
  \<open>Error msg\<close>: \<open>throw new Error(msg)\<close>.
  \<open>UndefinedCell\<close>: an element read beyond the end of an existing row; JavaScript
  yields \<open>undefined\<close> there and goes on, which a board of numbers cannot hold, so the
  model stops with this outcome and no theorem below speaks about it.
\<close>

datatype direction = Direction (dx: int) (dy: int) (dname: string)

definition EMPTY_TILE :: int where
  "EMPTY_TILE = 0"

definition DIRECTIONS :: "direction list" where
  "DIRECTIONS = [Direction 0 (-1) ''up'', Direction 0 1 ''down'',
                 Direction (-1) 0 ''left'', Direction 1 0 ''right'']"

definition jsRemainder :: "int \<Rightarrow> int \<Rightarrow> int" where
  "jsRemainder a b = sgn a * (\<bar>a\<bar> mod \<bar>b\<bar>)"

section \<open>ArrayUtils\<close>

definition create2DArray :: "nat \<Rightarrow> nat \<Rightarrow> int \<Rightarrow> board" where
  "create2DArray rows cols fillValue = replicate rows (replicate cols fillValue)"

definition clone2DArray :: "board \<Rightarrow> board" where
  "clone2DArray array = map (\<lambda>rw. rw) array"

definition flatten2DArray :: "board \<Rightarrow> int list" where
  "flatten2DArray array2D = concat array2D"

definition readCell :: "board \<Rightarrow> position \<Rightarrow> error + int" where
  "readCell puzzle pos =
     (if row pos < 0 \<or> int (length puzzle) \<le> row pos then Inl TypeError
      else if col pos < 0 \<or> int (length (puzzle ! nat (row pos))) \<le> col pos
        then Inl UndefinedCell
      else Inr (puzzle ! nat (row pos) ! nat (col pos)))"

definition writeCell :: "board \<Rightarrow> position \<Rightarrow> int \<Rightarrow> board" where
  "writeCell puzzle pos v =
     puzzle[nat (row pos) := (puzzle ! nat (row pos))[nat (col pos) := v]]"

text \<open>
  \<open>createSolvedPuzzle\<close>: the two nested loops over \<open>row\<close> and \<open>col\<close>, threading the
  array and the counter \<open>number\<close>.
\<close>

definition createSolvedPuzzle :: "nat \<Rightarrow> board" where
  "createSolvedPuzzle sz =
     fst (fold (\<lambda>r. fold (\<lambda>c (puzzle, number).
                  if r = sz - 1 \<and> c = sz - 1
                  then (writeCell puzzle \<lparr>row = int r, col = int c\<rparr> EMPTY_TILE, number)
                  else (writeCell puzzle \<lparr>row = int r, col = int c\<rparr> number, number + 1))
                [0..<sz])
          [0..<sz] (create2DArray sz sz 0, 1))"

fun findCol :: "int list \<Rightarrow> int \<Rightarrow> nat \<Rightarrow> nat option" where
  "findCol [] v c = None"
| "findCol (w # ws) v c = (if w = v then Some c else findCol ws v (c + 1))"

fun findRow :: "board \<Rightarrow> int \<Rightarrow> nat \<Rightarrow> position option" where
  "findRow [] v r = None"
| "findRow (rw # rws) v r =
     (case findCol rw v 0 of
        Some c \<Rightarrow> Some \<lparr>row = int r, col = int c\<rparr>
      | None \<Rightarrow> findRow rws v (r + 1))"

definition findPosition :: "board \<Rightarrow> int \<Rightarrow> position option" where
  "findPosition puzzle v = findRow puzzle v 0"

definition findEmptyPosition :: "board \<Rightarrow> position option" where
  "findEmptyPosition puzzle = findPosition puzzle EMPTY_TILE"

text \<open>
  \<open>getValueAt\<close> returns \<open>null\<close> (here \<open>None\<close>) outside the bounds it checks, which are
  the number of rows and the length of the first row.
\<close>

definition getValueAt :: "board \<Rightarrow> int \<Rightarrow> int \<Rightarrow> error + int option" where
  "getValueAt puzzle r c =
     (if r \<ge> 0 \<and> r < int (length puzzle) \<and> c \<ge> 0 \<and> c < int (length (puzzle ! 0))
      then (case readCell puzzle \<lparr>row = r, col = c\<rparr> of
              Inl e \<Rightarrow> Inl e | Inr v \<Rightarrow> Inr (Some v))
      else Inr None)"

definition swapPositions :: "board \<Rightarrow> position \<Rightarrow> position \<Rightarrow> error + board" where
  "swapPositions puzzle pos1 pos2 =
     (let newPuzzle = clone2DArray puzzle in
      case readCell newPuzzle pos1 of
        Inl e \<Rightarrow> Inl e
      | Inr temp \<Rightarrow>
          (case readCell newPuzzle pos2 of
             Inl e \<Rightarrow> Inl e
           | Inr v2 \<Rightarrow> Inr (writeCell (writeCell newPuzzle pos1 v2) pos2 temp)))"


definition areAdjacent :: "position \<Rightarrow> position \<Rightarrow> bool" where
  "areAdjacent pos1 pos2 =
     (let rowDiff = \<bar>row pos1 - row pos2\<bar>; colDiff = \<bar>col pos1 - col pos2\<bar> in
      (rowDiff = 1 \<and> colDiff = 0) \<or> (rowDiff = 0 \<and> colDiff = 1))"

text \<open>
  \<open>countInversions\<close> is the double loop of \<open>isPuzzleSolvable\<close> over the indices
  \<open>i\<close> and \<open>j = i + 1, ...\<close> of \<open>tilesOnly\<close>.
\<close>

definition countInversions :: "int list \<Rightarrow> nat" where
  "countInversions tiles =
     fold (\<lambda>i. fold (\<lambda>j inversions.
                  if tiles ! i > tiles ! j then inversions + 1 else inversions)
                [i + 1..<length tiles])
          [0..<length tiles] 0"

definition dropEmpty :: "int list \<Rightarrow> int list" where
  "dropEmpty flatPuzzle = filter (\<lambda>tile. tile \<noteq> EMPTY_TILE) flatPuzzle"

definition tilesOnly :: "board \<Rightarrow> int list" where
  "tilesOnly puzzle = dropEmpty (flatten2DArray puzzle)"

definition isPuzzleSolvable :: "board \<Rightarrow> error + bool" where
  "isPuzzleSolvable puzzle =
     (let sz = int (length puzzle);
          inversions = int (countInversions (tilesOnly puzzle)) in
      if jsRemainder sz 2 = 1 then Inr (jsRemainder inversions 2 = 0)
      else (case findEmptyPosition puzzle of
              None \<Rightarrow> Inl TypeError
            | Some emptyPos \<Rightarrow>
                let emptyRowFromBottom = sz - row emptyPos in
                if jsRemainder emptyRowFromBottom 2 = 1
                then Inr (jsRemainder inversions 2 = 0)
                else Inr (jsRemainder inversions 2 = 1)))"



section \<open>Validator\<close>

datatype details =
    NoDetails
  | BoundsDetails int int nat
  | EmptyTileDetails position
  | NoEmptyDetails board
  | NotAdjacentDetails position position int
  | ValidDetails "int option" position position

record validation =
  valid :: bool
  reason :: string
  details :: details

record validMove =
  moveRow :: int
  moveCol :: int
  moveTileValue :: "int option"
  moveDirection :: string

definition isValidBoardPosition :: "int \<Rightarrow> int \<Rightarrow> int \<Rightarrow> bool" where
  "isValidBoardPosition r c sz = (r \<ge> 0 \<and> r < sz \<and> c \<ge> 0 \<and> c < sz)"

definition validateTileMove :: "board \<Rightarrow> int \<Rightarrow> int \<Rightarrow> error + validation" where
  "validateTileMove puzzle r c =
     (if \<not> isValidBoardPosition r c (int (length puzzle))
      then Inr \<lparr>valid = False, reason = ''Position out of bounds'',
                details = BoundsDetails r c (length puzzle)\<rparr>
      else case getValueAt puzzle r c of
        Inl e \<Rightarrow> Inl e
      | Inr tileValue \<Rightarrow>
          if tileValue = Some EMPTY_TILE
          then Inr \<lparr>valid = False, reason = ''Cannot move empty tile'',
                    details = EmptyTileDetails \<lparr>row = r, col = c\<rparr>\<rparr>
          else (case findEmptyPosition puzzle of
                  None \<Rightarrow> Inr \<lparr>valid = False, reason = ''Empty tile not found'',
                                 details = NoEmptyDetails puzzle\<rparr>
                | Some emptyPos \<Rightarrow>
                    let tilePos = \<lparr>row = r, col = c\<rparr> in
                    if \<not> areAdjacent tilePos emptyPos
                    then Inr \<lparr>valid = False, reason = ''Tile not adjacent to empty space'',
                              details = NotAdjacentDetails tilePos emptyPos
                                (\<bar>r - row emptyPos\<bar> + \<bar>c - col emptyPos\<bar>)\<rparr>
                    else Inr \<lparr>valid = True, reason = ''Valid move'',
                              details = ValidDetails tileValue tilePos emptyPos\<rparr>))"

definition getValidMoves :: "board \<Rightarrow> error + validMove list" where
  "getValidMoves puzzle =
     (case findEmptyPosition puzzle of
        None \<Rightarrow> Inr []
      | Some emptyPos \<Rightarrow>
          fold (\<lambda>d acc.
                  case acc of
                    Inl e \<Rightarrow> Inl e
                  | Inr validMoves \<Rightarrow>
                      let tileRow = row emptyPos + dy d; tileCol = col emptyPos + dx d in
                      if isValidBoardPosition tileRow tileCol (int (length puzzle))
                      then (case getValueAt puzzle tileRow tileCol of
                              Inl e \<Rightarrow> Inl e
                            | Inr tileValue \<Rightarrow>
                                Inr (validMoves @
                                     [\<lparr>moveRow = tileRow, moveCol = tileCol,
                                       moveTileValue = tileValue,
                                       moveDirection = dname d\<rparr>]))
                      else Inr validMoves)
               DIRECTIONS (Inr []))"

section \<open>The puzzle session\<close>

text \<open>
  \<open>isPuzzleSolved\<close> walks the cells in row-major order; a cell missing from a short row
  reads \<open>undefined\<close>, which differs from every expected value.
\<close>

definition cellOrUndefined :: "board \<Rightarrow> nat \<Rightarrow> nat \<Rightarrow> int option" where
  "cellOrUndefined puzzle r c =
     (if c < length (puzzle ! r) then Some (puzzle ! r ! c) else None)"

fun solvedScan :: "board \<Rightarrow> nat \<Rightarrow> (nat \<times> nat) list \<Rightarrow> int \<Rightarrow> bool" where
  "solvedScan puzzle sz [] expectedValue = True"
| "solvedScan puzzle sz ((r, c) # rest) expectedValue =
     (if r = sz - 1 \<and> c = sz - 1 then cellOrUndefined puzzle r c = Some EMPTY_TILE
      else if cellOrUndefined puzzle r c \<noteq> Some expectedValue then False
      else solvedScan puzzle sz rest (expectedValue + 1))"

definition isPuzzleSolved :: "board \<Rightarrow> bool" where
  "isPuzzleSolved puzzle =
     (let sz = length puzzle in
      solvedScan puzzle sz (List.product [0..<sz] [0..<sz]) 1)"

definition getManhattanDistance :: "board \<Rightarrow> nat \<Rightarrow> error + int" where
  "getManhattanDistance puzzle sz =
     fold (\<lambda>(r, c) acc.
             case acc of
               Inl e \<Rightarrow> Inl e
             | Inr distance \<Rightarrow>
                 (case readCell puzzle \<lparr>row = int r, col = int c\<rparr> of
                    Inl e \<Rightarrow> Inl e
                  | Inr v \<Rightarrow>
                      if v \<noteq> EMPTY_TILE
                      then (let targetRow = (v - 1) div int sz;
                                targetCol = jsRemainder (v - 1) (int sz) in
                            Inr (distance + \<bar>int r - targetRow\<bar> + \<bar>int c - targetCol\<bar>))
                      else Inr distance))
          (List.product [0..<sz] [0..<sz]) (Inr 0)"

record moveData =
  moveNumber :: int
  tileValue :: "int option"
  fromPos :: position
  toPos :: position
  previousState :: board
  stateAfter :: board
  movesRemaining :: int
  timestamp :: int

text \<open>
  The statistics object, without its two floating-point quotients (the difficulty label
  and the efficiency ratio).
\<close>

record statistics =
  statSize :: nat
  statMoveCount :: int
  statMaxMoves :: int
  statMovesRemaining :: int
  statElapsedTime :: int
  statIsComplete :: bool
  statIsSolved :: bool
  statManhattanDistance :: int

datatype event =
    PUZZLE_STATE_SET board int
  | INVALID_MOVE string position "position option"
  | TILE_MOVED moveData
  | MOVE_UNDONE moveData board int
  | PUZZLE_SOLVED statistics "moveData list" board
  | GAME_OVER string statistics "moveData list" board

text \<open>
  The fields of the class \<open>Puzzle\<close>. \<open>emitted\<close> is not a field: it records the
  notifications passed to \<open>emit\<close>, in order. Every operation that reads the clock takes
  the reading of \<open>Date.now()\<close> as its argument \<open>now\<close>.
\<close>

record puzzle =
  boardSize :: nat
  initialState :: board
  currentState :: board
  solvedState :: board
  moveHistory :: "moveData list"
  moveCount :: int
  maxMoves :: int
  startTime :: "int option"
  endTime :: "int option"
  isComplete :: bool
  emitted :: "event list"

definition emit :: "event \<Rightarrow> puzzle \<Rightarrow> puzzle" where
  "emit e s = s\<lparr>emitted := emitted s @ [e]\<rparr>"

definition newPuzzle :: "nat \<Rightarrow> puzzle" where
  "newPuzzle sz =
     (let solved = createSolvedPuzzle sz in
      \<lparr>boardSize = sz, initialState = clone2DArray solved,
       currentState = clone2DArray solved, solvedState = solved,
       moveHistory = [], moveCount = 0, maxMoves = 100,
       startTime = None, endTime = None, isComplete = False, emitted = []\<rparr>)"

definition setPuzzleState :: "puzzle \<Rightarrow> board \<Rightarrow> int \<Rightarrow> (error + unit) \<times> puzzle" where
  "setPuzzleState s puzzleState maxMoves' =
     (if length puzzleState \<noteq> boardSize s then (Inl (Error ''Invalid puzzle state''), s)
      else case isPuzzleSolvable puzzleState of
        Inl e \<Rightarrow> (Inl e, s)
      | Inr solvable \<Rightarrow>
          if \<not> solvable then (Inl (Error ''Puzzle state is not solvable''), s)
          else (let s1 = s\<lparr>currentState := clone2DArray puzzleState,
                             initialState := clone2DArray puzzleState,
                             maxMoves := maxMoves', moveHistory := [], moveCount := 0,
                             startTime := None, endTime := None, isComplete := False\<rparr>
                in (Inr (), emit (PUZZLE_STATE_SET (clone2DArray (currentState s1))
                                    (maxMoves s1)) s1)))"

definition getCurrentState :: "puzzle \<Rightarrow> board" where
  "getCurrentState s = clone2DArray (currentState s)"

definition getSolvedState :: "puzzle \<Rightarrow> board" where
  "getSolvedState s = clone2DArray (solvedState s)"

definition isSolved :: "puzzle \<Rightarrow> bool" where
  "isSolved s = isPuzzleSolved (currentState s)"

definition getMoveCount :: "puzzle \<Rightarrow> int" where
  "getMoveCount s = moveCount s"

definition getMovesRemaining :: "puzzle \<Rightarrow> int" where
  "getMovesRemaining s = max 0 (maxMoves s - moveCount s)"

definition getMoveHistory :: "puzzle \<Rightarrow> moveData list" where
  "getMoveHistory s = map (\<lambda>m. m) (moveHistory s)"

text \<open>
  \<open>getStatistics\<close>: \<open>this.endTime || Date.now()\<close> and \<open>this.startTime ? ... : 0\<close> take
  the second branch on \<open>null\<close> and on 0. The Manhattan distance is computed (twice in
  the source, for the label and for the field) and may throw.
\<close>

definition getStatistics :: "int \<Rightarrow> puzzle \<Rightarrow> error + statistics" where
  "getStatistics now s =
     (let currentTime = (case endTime s of
                           None \<Rightarrow> now
                         | Some t \<Rightarrow> if t \<noteq> 0 then t else now);
          elapsedTime = (case startTime s of
                           None \<Rightarrow> 0
                         | Some t \<Rightarrow> if t \<noteq> 0 then currentTime - t else 0)
      in case getManhattanDistance (currentState s) (boardSize s) of
           Inl e \<Rightarrow> Inl e
         | Inr distance \<Rightarrow>
             Inr \<lparr>statSize = boardSize s, statMoveCount = moveCount s,
                  statMaxMoves = maxMoves s, statMovesRemaining = getMovesRemaining s,
                  statElapsedTime = elapsedTime, statIsComplete = isComplete s,
                  statIsSolved = isSolved s, statManhattanDistance = distance\<rparr>)"

definition handlePuzzleComplete :: "int \<Rightarrow> puzzle \<Rightarrow> (error + unit) \<times> puzzle" where
  "handlePuzzleComplete now s =
     (let s1 = s\<lparr>isComplete := True, endTime := Some now\<rparr> in
      case getStatistics now s1 of
        Inl e \<Rightarrow> (Inl e, s1)
      | Inr stats \<Rightarrow>
          (Inr (), emit (PUZZLE_SOLVED stats (getMoveHistory s1)
                           (clone2DArray (currentState s1))) s1))"

definition handleGameOver :: "int \<Rightarrow> puzzle \<Rightarrow> (error + unit) \<times> puzzle" where
  "handleGameOver now s =
     (let s1 = s\<lparr>endTime := Some now\<rparr> in
      case getStatistics now s1 of
        Inl e \<Rightarrow> (Inl e, s1)
      | Inr stats \<Rightarrow>
          (Inr (), emit (GAME_OVER ''Out of moves'' stats (getMoveHistory s1)
                           (clone2DArray (currentState s1))) s1))"

definition executeMove ::
  "int \<Rightarrow> puzzle \<Rightarrow> position \<Rightarrow> position \<Rightarrow> (error + moveData) \<times> puzzle" where
  "executeMove now s tilePos emptyPos =
     (case getValueAt (currentState s) (row tilePos) (col tilePos) of
        Inl e \<Rightarrow> (Inl e, s)
      | Inr tv \<Rightarrow>
          (let previous = clone2DArray (currentState s) in
           case swapPositions (currentState s) tilePos emptyPos of
             Inl e \<Rightarrow> (Inl e, s)
           | Inr swapped \<Rightarrow>
               (let s1 = s\<lparr>currentState := swapped, moveCount := moveCount s + 1\<rparr>;
                    md = \<lparr>moveNumber = moveCount s1, tileValue = tv,
                          fromPos = tilePos, toPos = emptyPos,
                          previousState = previous,
                          stateAfter = clone2DArray (currentState s1),
                          movesRemaining = maxMoves s1 - moveCount s1,
                          timestamp = now\<rparr>;
                    s2 = s1\<lparr>moveHistory := moveHistory s1 @ [md]\<rparr>
                in (Inr md, emit (TILE_MOVED md) s2))))"

definition moveTile :: "int \<Rightarrow> puzzle \<Rightarrow> int \<Rightarrow> int \<Rightarrow> (error + bool) \<times> puzzle" where
  "moveTile now s r c =
     (if isComplete s then (Inr False, s)
      else
        (let s1 = (if startTime s = None then s\<lparr>startTime := Some now\<rparr> else s) in
         if r < 0 \<or> r \<ge> int (boardSize s1) \<or> c < 0 \<or> c \<ge> int (boardSize s1)
         then (Inr False,
               emit (INVALID_MOVE ''Position out of bounds'' \<lparr>row = r, col = c\<rparr> None) s1)
         else case findEmptyPosition (currentState s1) of
           None \<Rightarrow> (Inl TypeError, s1)
         | Some emptyPos \<Rightarrow>
             (let tilePos = \<lparr>row = r, col = c\<rparr> in
              if \<not> areAdjacent tilePos emptyPos
              then (Inr False,
                    emit (INVALID_MOVE ''Tile not adjacent to empty space'' tilePos
                            (Some emptyPos)) s1)
              else case executeMove now s1 tilePos emptyPos of
                (Inl e, s2) \<Rightarrow> (Inl e, s2)
              | (Inr md, s2) \<Rightarrow>
                  if isPuzzleSolved (currentState s2)
                  then (case handlePuzzleComplete now s2 of
                          (Inl e, s3) \<Rightarrow> (Inl e, s3)
                        | (Inr u, s3) \<Rightarrow> (Inr True, s3))
                  else if moveCount s2 \<ge> maxMoves s2
                  then (case handleGameOver now s2 of
                          (Inl e, s3) \<Rightarrow> (Inl e, s3)
                        | (Inr u, s3) \<Rightarrow> (Inr True, s3))
                  else (Inr True, s2))))"

definition undoLastMove :: "puzzle \<Rightarrow> bool \<times> puzzle" where
  "undoLastMove s =
     (if length (moveHistory s) = 0 \<or> isComplete s then (False, s)
      else (let lastMove = last (moveHistory s);
                s1 = s\<lparr>moveHistory := butlast (moveHistory s),
                        currentState := previousState lastMove,
                        moveCount := moveCount s - 1\<rparr>
            in (True, emit (MOVE_UNDONE lastMove (clone2DArray (currentState s1))
                              (moveCount s1)) s1)))"

section \<open>Concrete sessions\<close>

text \<open>
  \<open>sessionA\<close> is \<open>new Puzzle(3)\<close> after \<open>setPuzzleState\<close> with the board of scenario A
  and the default budget; \<open>budgetOneSession\<close> has a budget of one move and the empty cell
  in the lower left corner; \<open>afterBudgetMove\<close> is that session after the move at row 1,
  column 0, made at clock reading 1000.
\<close>

definition scenarioA :: board where
  "scenarioA = [[1, 2, 3], [4, 5, 6], [7, 0, 8]]"

definition sessionA :: puzzle where
  "sessionA = snd (setPuzzleState (newPuzzle 3) scenarioA 100)"

definition budgetOneSession :: puzzle where
  "budgetOneSession = snd (setPuzzleState (newPuzzle 3) [[1, 2, 3], [4, 5, 6], [0, 7, 8]] 1)"

definition afterBudgetMove :: puzzle where
  "afterBudgetMove = snd (moveTile 1000 budgetOneSession 1 0)"

section \<open>The session on a store of arrays\<close>

text \<open>
  A JavaScript board is a reference to an array of references to row arrays. To speak
  about aliasing, the store is a list of objects addressed by their index; allocation
  appends. \<open>heapClone2DArray\<close> is \<open>array.map(row => [...row])\<close>: it reads the rows and
  allocates a copy of each and a new outer array. \<open>heapWriteCell h a r c v\<close> is a caller's
  assignment \<open>board[r][c] = v\<close> through the reference \<open>a\<close>, for a cell that exists.
  \<open>heapNewPuzzle\<close> is the constructor; \<open>heapGetCurrentState\<close>, \<open>heapGetSolvedState\<close> and
  \<open>heapExportState\<close> are the three operations that hand boards to callers (the scalar
  fields of the exported object are left out).
\<close>

datatype obj = RowObj "int list" | ArrayObj "nat list"

type_synonym heap = "obj list"

definition alloc :: "heap \<Rightarrow> obj \<Rightarrow> nat \<times> heap" where
  "alloc h ob = (length h, h @ [ob])"

definition rowAt :: "heap \<Rightarrow> nat \<Rightarrow> int list option" where
  "rowAt h a =
     (if a < length h then (case h ! a of RowObj xs \<Rightarrow> Some xs | ArrayObj rs \<Rightarrow> None)
      else None)"

definition arrayAt :: "heap \<Rightarrow> nat \<Rightarrow> nat list option" where
  "arrayAt h a =
     (if a < length h then (case h ! a of ArrayObj rs \<Rightarrow> Some rs | RowObj xs \<Rightarrow> None)
      else None)"

definition readBoard :: "heap \<Rightarrow> nat \<Rightarrow> board option" where
  "readBoard h a =
     (case arrayAt h a of None \<Rightarrow> None | Some rs \<Rightarrow> those (map (rowAt h) rs))"

fun storeRows :: "heap \<Rightarrow> board \<Rightarrow> nat list \<times> heap" where
  "storeRows h [] = ([], h)"
| "storeRows h (xs # rest) =
     (let (a, h1) = alloc h (RowObj xs); (as, h2) = storeRows h1 rest in (a # as, h2))"

definition storeBoard :: "heap \<Rightarrow> board \<Rightarrow> nat \<times> heap" where
  "storeBoard h b = (let (rs, h1) = storeRows h b in alloc h1 (ArrayObj rs))"

definition heapClone2DArray :: "heap \<Rightarrow> nat \<Rightarrow> (nat \<times> heap) option" where
  "heapClone2DArray h a =
     (case readBoard h a of None \<Rightarrow> None | Some b \<Rightarrow> Some (storeBoard h b))"

definition heapWriteCell :: "heap \<Rightarrow> nat \<Rightarrow> nat \<Rightarrow> nat \<Rightarrow> int \<Rightarrow> heap" where
  "heapWriteCell h a r c v =
     (case arrayAt h a of
        None \<Rightarrow> h
      | Some rs \<Rightarrow>
          if r < length rs
          then (case rowAt h (rs ! r) of
                  None \<Rightarrow> h
                | Some xs \<Rightarrow> if c < length xs then h[rs ! r := RowObj (xs[c := v])] else h)
          else h)"

record heapPuzzle =
  hpCurrentState :: nat
  hpInitialState :: nat
  hpSolvedState :: nat
  hpMoveHistory :: nat

record exportedState =
  exCurrentState :: nat
  exInitialState :: nat
  exMoveHistory :: nat

definition heapNewPuzzle :: "nat \<Rightarrow> (heapPuzzle \<times> heap) option" where
  "heapNewPuzzle sz =
     (let (hist, h1) = alloc [] (ArrayObj []);
          (solved, h2) = storeBoard h1 (createSolvedPuzzle sz) in
      case heapClone2DArray h2 solved of
        None \<Rightarrow> None
      | Some (cur, h3) \<Rightarrow>
          (case heapClone2DArray h3 solved of
             None \<Rightarrow> None
           | Some (ini, h4) \<Rightarrow>
               Some (\<lparr>hpCurrentState = cur, hpInitialState = ini, hpSolvedState = solved,
                       hpMoveHistory = hist\<rparr>, h4)))"

definition heapGetCurrentState :: "heap \<Rightarrow> heapPuzzle \<Rightarrow> (nat \<times> heap) option" where
  "heapGetCurrentState h p = heapClone2DArray h (hpCurrentState p)"

definition heapGetSolvedState :: "heap \<Rightarrow> heapPuzzle \<Rightarrow> (nat \<times> heap) option" where
  "heapGetSolvedState h p = heapClone2DArray h (hpSolvedState p)"

definition heapExportState :: "heapPuzzle \<Rightarrow> exportedState" where
  "heapExportState p =
     \<lparr>exCurrentState = hpCurrentState p, exInitialState = hpInitialState p,
      exMoveHistory = hpMoveHistory p\<rparr>"

definition exampleSession :: heapPuzzle where
  "exampleSession = (case heapNewPuzzle 3 of Some (p, h) \<Rightarrow> p
                     | None \<Rightarrow> \<lparr>hpCurrentState = 0, hpInitialState = 0, hpSolvedState = 0,
                                 hpMoveHistory = 0\<rparr>)"

definition exampleHeap :: heap where
  "exampleHeap = (case heapNewPuzzle 3 of Some (p, h) \<Rightarrow> h | None \<Rightarrow> [])"

definition resultBoard :: "(nat \<times> heap) option \<Rightarrow> board option" where
  "resultBoard res = (case res of None \<Rightarrow> None | Some (a, h) \<Rightarrow> readBoard h a)"

definition writeResult :: "(nat \<times> heap) option \<Rightarrow> nat \<Rightarrow> nat \<Rightarrow> int \<Rightarrow> heap" where
  "writeResult res r c v = (case res of None \<Rightarrow> [] | Some (a, h) \<Rightarrow> heapWriteCell h a r c v)"

section \<open>The parity rule as the specification words it\<close>

text \<open>
  The inversion count of a list of values is the number of index pairs \<open>i < j\<close> with
  \<open>value[i] > value[j]\<close>. The rule takes the board size, the 0-based row of the
  empty cell and the inversion count.
\<close>

definition inversionPairs :: "int list \<Rightarrow> (nat \<times> nat) set" where
  "inversionPairs vs = {(i, j). i < j \<and> j < length vs \<and> vs ! i > vs ! j}"

definition inversionCount :: "int list \<Rightarrow> nat" where
  "inversionCount vs = card (inversionPairs vs)"

definition parityRule :: "nat \<Rightarrow> nat \<Rightarrow> nat \<Rightarrow> bool" where
  "parityRule S emptyRow inversions =
     (if odd S then even inversions
      else (let emptyRowFromBottom = S - emptyRow in
            (odd emptyRowFromBottom \<and> even inversions) \<or>
            (even emptyRowFromBottom \<and> odd inversions)))"

definition emptyRowIs :: "board \<Rightarrow> nat \<Rightarrow> bool" where
  "emptyRowIs b r =
     (r < length b \<and> EMPTY_TILE \<in> set (b ! r) \<and>
      (\<forall>r' \<in> set [0..<length b]. EMPTY_TILE \<in> set (b ! r') \<longrightarrow> r' = r))"

definition scenarioB :: board where
  "scenarioB = [[1, 2, 3, 4], [5, 6, 7, 8], [9, 10, 11, 12], [13, 15, 14, 0]]"

section \<open>Auxiliary notions for the proofs\<close>

text \<open>
  \<open>inversionsOf\<close> counts inversions by recursion on the list, and \<open>crossInversions\<close>
  those between two lists. \<open>squareBoard S\<close> holds of a board of \<open>S\<close> rows of length
  \<open>S\<close>; \<open>flatIndex\<close> is the index of a position in the flattened board. \<open>shuffleInv\<close>
  is the invariant of the shuffle loop: a square board of distinct values, the empty
  value at the tracked position, and the parity rule true.
\<close>

fun inversionsOf :: "int list \<Rightarrow> nat" where
  "inversionsOf [] = 0"
| "inversionsOf (x # xs) = length (filter (\<lambda>y. x > y) xs) + inversionsOf xs"

definition crossInversions :: "int list \<Rightarrow> int list \<Rightarrow> nat" where
  "crossInversions xs ys = sum_list (map (\<lambda>x. length (filter (\<lambda>y. x > y) ys)) xs)"

definition squareBoard :: "nat \<Rightarrow> board \<Rightarrow> bool" where
  "squareBoard S b = (length b = S \<and> (\<forall>rw \<in> set b. length rw = S))"

definition flatIndex :: "nat \<Rightarrow> position \<Rightarrow> nat" where
  "flatIndex S pos = nat (row pos) * S + nat (col pos)"

definition inBounds :: "nat \<Rightarrow> position \<Rightarrow> bool" where
  "inBounds S pos = (0 \<le> row pos \<and> row pos < int S \<and> 0 \<le> col pos \<and> col pos < int S)"


section \<open>The inversion loop\<close>

lemma count_step:
  "fold (\<lambda>y acc. if x > y then acc + 1 else acc) ys acc
     = acc + length (filter (\<lambda>y. (x::int) > y) ys)"
  by (induction ys arbitrary: acc) auto

lemma nth_upt_drop: "map (nth xs) [a..<length xs] = drop a xs"
  by (metis drop_map drop_upt map_nth add.commute add_0)

lemma inner_loop:
  "fold (\<lambda>j inversions. if xs ! i > xs ! j then inversions + 1 else inversions)
      [a..<length xs] acc
     = acc + length (filter (\<lambda>y. (xs ! i :: int) > y) (drop a xs))"
proof -
  have "fold (\<lambda>j inversions. if xs ! i > xs ! j then inversions + 1 else inversions)
          [a..<length xs] acc
      = fold (\<lambda>y inversions. if xs ! i > y then inversions + 1 else inversions)
          (map (nth xs) [a..<length xs]) acc"
    by (simp add: fold_map comp_def)
  then show ?thesis by (simp add: nth_upt_drop count_step)
qed

lemma outer_loop:
  "k \<le> length xs \<Longrightarrow>
   fold (\<lambda>i. fold (\<lambda>j inversions. if xs ! i > xs ! j then inversions + 1 else inversions)
              [i + 1..<length xs]) [k..<length xs] acc
     = acc + inversionsOf (drop k xs)"
proof (induction "length xs - k" arbitrary: k acc)
  case 0
  then show ?case by simp
next
  case (Suc m)
  then have k: "k < length xs" by simp
  have d: "drop k xs = xs ! k # drop (Suc k) xs"
    using k by (simp add: Cons_nth_drop_Suc)
  have m: "m = length xs - Suc k" using Suc.hyps(2) by simp
  show ?case
    using Suc.hyps(1)[OF m, of "acc + length (filter (\<lambda>y. xs ! k > y) (drop (Suc k) xs))"] k
    by (simp add: upt_conv_Cons inner_loop d)
qed

lemma countInversions_rec: "countInversions xs = inversionsOf xs"
  using outer_loop[of 0 xs 0] by (simp add: countInversions_def)

section \<open>The loop counts the inversion pairs\<close>

lemma inversionPairs_finite: "finite (inversionPairs vs)"
proof -
  have "inversionPairs vs \<subseteq> {..<length vs} \<times> {..<length vs}"
    by (auto simp: inversionPairs_def)
  then show ?thesis by (rule finite_subset) simp
qed

lemma inversionPairs_Cons:
  "inversionPairs (x # xs) =
     (\<lambda>j. (0, Suc j)) ` {j. j < length xs \<and> x > xs ! j} \<union>
     (\<lambda>(i, j). (Suc i, Suc j)) ` inversionPairs xs"
proof (rule set_eqI)
  fix p :: "nat \<times> nat"
  obtain i j where p: "p = (i, j)" by (cases p)
  show "p \<in> inversionPairs (x # xs) \<longleftrightarrow>
        p \<in> (\<lambda>j. (0, Suc j)) ` {j. j < length xs \<and> x > xs ! j} \<union>
            (\<lambda>(i, j). (Suc i, Suc j)) ` inversionPairs xs"
  proof (cases i)
    case 0
    then show ?thesis
      unfolding p inversionPairs_def by (cases j) (auto simp: image_iff)
  next
    case (Suc i')
    then show ?thesis
      unfolding p inversionPairs_def by (cases j) (auto simp: image_iff)
  qed
qed

lemma inversionCount_rec: "inversionCount xs = inversionsOf xs"
proof (induction xs)
  case Nil
  then show ?case by (simp add: inversionCount_def inversionPairs_def)
next
  case (Cons x xs)
  let ?A = "(\<lambda>j. (0::nat, Suc j)) ` {j. j < length xs \<and> x > xs ! j}"
  let ?B = "(\<lambda>(i, j). (Suc i, Suc j)) ` inversionPairs xs"
  have fA: "finite ?A" by simp
  have fB: "finite ?B" by (simp add: inversionPairs_finite)
  have dj: "?A \<inter> ?B = {}" by auto
  have cA: "card ?A = length (filter (\<lambda>y. x > y) xs)"
    by (simp add: card_image inj_on_def length_filter_conv_card)
  have cB: "card ?B = inversionCount xs"
    unfolding inversionCount_def by (rule card_image) (auto simp: inj_on_def)
  have "inversionCount (x # xs) = card (?A \<union> ?B)"
    by (simp only: inversionCount_def inversionPairs_Cons)
  also have "\<dots> = card ?A + card ?B"
    using fA fB dj by (rule card_Un_disjoint)
  finally show ?case using cA cB Cons.IH by simp
qed

section \<open>Inversions under a slide\<close>

lemma crossInversions_simps [simp]:
  "crossInversions [] ys = 0"
  "crossInversions (x # xs) ys = length (filter (\<lambda>y. x > y) ys) + crossInversions xs ys"
  by (simp_all add: crossInversions_def)


lemma crossInversions_append_left:
  "crossInversions (xs @ ys) zs = crossInversions xs zs + crossInversions ys zs"
  by (induction xs) auto









section \<open>Square boards and their flattening\<close>

lemma concat_nth_rect:
  "\<forall>rw \<in> set b. length rw = n \<Longrightarrow> r < length b \<Longrightarrow> c < n \<Longrightarrow>
   concat b ! (r * n + c) = b ! r ! c"
proof (induction b arbitrary: r)
  case Nil
  then show ?case by simp
next
  case (Cons rw b)
  show ?case
  proof (cases r)
    case 0
    then show ?thesis using Cons.prems by (simp add: nth_append)
  next
    case (Suc r')
    then show ?thesis using Cons.prems Cons.IH[of r'] by (simp add: nth_append)
  qed
qed

lemma concat_length_rect:
  "\<forall>rw \<in> set b. length rw = n \<Longrightarrow> length (concat b) = length b * n"
  by (induction b) auto


lemma flatIndex_less:
  "inBounds S p \<Longrightarrow> flatIndex S p < S * S"
proof -
  assume a: "inBounds S p"
  then have r: "nat (row p) < S" and c: "nat (col p) < S" by (auto simp: inBounds_def)
  have "nat (row p) * S + nat (col p) < nat (row p) * S + S" using c by simp
  also have "\<dots> = Suc (nat (row p)) * S" by simp
  also have "\<dots> \<le> S * S" using r by (metis Suc_leI mult_le_mono1)
  finally show ?thesis by (simp add: flatIndex_def)
qed

lemma flatIndex_inj:
  assumes "inBounds S p" "inBounds S q" "flatIndex S p = flatIndex S q"
  shows "p = q"
proof -
  have c: "nat (col p) < S" "nat (col q) < S" using assms by (auto simp: inBounds_def)
  have e: "nat (row p) * S + nat (col p) = nat (row q) * S + nat (col q)"
    using assms(3) by (simp add: flatIndex_def)
  have "(nat (row p) * S + nat (col p)) div S = nat (row p)" using c by simp
  moreover have "(nat (row q) * S + nat (col q)) div S = nat (row q)" using c by simp
  ultimately have r: "nat (row p) = nat (row q)" using e by simp
  then have "nat (col p) = nat (col q)" using e by simp
  then show ?thesis using r assms(1,2) by (auto simp: inBounds_def)
qed



lemma readCell_flat:
  assumes "squareBoard S b" "inBounds S p"
  shows "readCell b p = Inr (concat b ! flatIndex S p)"
  using assms concat_nth_rect[of b S "nat (row p)" "nat (col p)"]
  by (auto simp: squareBoard_def inBounds_def readCell_def flatIndex_def)


section \<open>Finding a value, and the solvability analyzer\<close>

lemma findCol_None: "findCol rw v c = None \<longleftrightarrow> v \<notin> set rw"
  by (induction rw arbitrary: c) auto

lemma findCol_Some:
  "findCol rw v c = Some k \<Longrightarrow> \<exists>j. k = c + j \<and> j < length rw \<and> rw ! j = v"
proof (induction rw arbitrary: c)
  case Nil
  then show ?case by simp
next
  case (Cons w ws)
  show ?case
  proof (cases "w = v")
    case True
    then show ?thesis using Cons.prems by (intro exI[of _ 0]) simp
  next
    case False
    then have "findCol ws v (c + 1) = Some k" using Cons.prems by simp
    from Cons.IH[OF this] obtain j where "k = c + 1 + j" "j < length ws" "ws ! j = v"
      by blast
    then show ?thesis by (intro exI[of _ "Suc j"]) simp
  qed
qed

lemma findRow_None: "findRow b v r = None \<longleftrightarrow> (\<forall>rw \<in> set b. v \<notin> set rw)"
proof (induction b arbitrary: r)
  case Nil
  then show ?case by simp
next
  case (Cons rw b)
  show ?case
  proof (cases "findCol rw v 0")
    case None
    then have "v \<notin> set rw" using findCol_None[of rw v 0] by simp
    then show ?thesis using None Cons.IH[of "r + 1"] by simp
  next
    case (Some c)
    then have "v \<in> set rw" using findCol_None[of rw v 0] by simp
    then show ?thesis using Some by simp
  qed
qed

lemma findRow_Some:
  "findRow b v r = Some p \<Longrightarrow>
   \<exists>i c. p = \<lparr>row = int (r + i), col = int c\<rparr> \<and> i < length b \<and> c < length (b ! i) \<and>
         b ! i ! c = v \<and> (\<forall>i' < i. v \<notin> set (b ! i'))"
proof (induction b arbitrary: r)
  case Nil
  then show ?case by simp
next
  case (Cons rw b)
  show ?case
  proof (cases "findCol rw v 0")
    case (Some c)
    then have "p = \<lparr>row = int r, col = int c\<rparr>" using Cons.prems by simp
    moreover have "c < length rw \<and> rw ! c = v" using findCol_Some[OF Some] by simp
    ultimately show ?thesis by (intro exI[of _ 0] exI[of _ c]) simp
  next
    case None
    then have "findRow b v (r + 1) = Some p" using Cons.prems by simp
    from Cons.IH[OF this] obtain i c where
      h: "p = \<lparr>row = int (r + 1 + i), col = int c\<rparr>" "i < length b" "c < length (b ! i)"
         "b ! i ! c = v" "\<forall>i' < i. v \<notin> set (b ! i')" by blast
    have "\<forall>i' < Suc i. v \<notin> set ((rw # b) ! i')"
      using h(5) None by (auto simp: nth_Cons findCol_None split: nat.splits)
    then show ?thesis using h(1-4) by (intro exI[of _ "Suc i"] exI[of _ c]) simp
  qed
qed

lemma findEmptyPosition_row:
  assumes "emptyRowIs b r"
  shows "\<exists>p. findEmptyPosition b = Some p \<and> row p = int r"
proof -
  have r: "r < length b" "EMPTY_TILE \<in> set (b ! r)"
    and u: "\<And>r'. r' < length b \<Longrightarrow> EMPTY_TILE \<in> set (b ! r') \<Longrightarrow> r' = r"
    using assms by (auto simp: emptyRowIs_def)
  have "findRow b EMPTY_TILE 0 \<noteq> None"
    using r by (auto simp: findRow_None)
  then obtain p where p: "findRow b EMPTY_TILE 0 = Some p" by blast
  from findRow_Some[OF p] obtain i c where
    h: "p = \<lparr>row = int (0 + i), col = int c\<rparr>" "i < length b" "c < length (b ! i)"
       "b ! i ! c = EMPTY_TILE" by blast
  have "EMPTY_TILE \<in> set (b ! i)" using h(3,4) by (metis nth_mem)
  then have "i = r" using u h(2) by blast
  then show ?thesis using p h(1) by (simp add: findEmptyPosition_def findPosition_def)
qed

lemma jsRemainder_nat: "jsRemainder (int n) 2 = int (n mod 2)"
  by (cases "n = 0") (simp_all add: jsRemainder_def of_nat_mod)

lemma jsRemainder_odd: "(jsRemainder (int n) 2 = 1) = odd n"
  unfolding jsRemainder_nat by presburger

lemma jsRemainder_even: "(jsRemainder (int n) 2 = 0) = even n"
  unfolding jsRemainder_nat by presburger

lemma isPuzzleSolvable_odd:
  "odd (length b) \<Longrightarrow> isPuzzleSolvable b = Inr (even (inversionsOf (tilesOnly b)))"
  by (simp add: isPuzzleSolvable_def Let_def jsRemainder_odd jsRemainder_even
      countInversions_rec)

lemma isPuzzleSolvable_rule:
  assumes "odd (length b) \<or> emptyRowIs b r"
  shows "isPuzzleSolvable b = Inr (parityRule (length b) r (inversionsOf (tilesOnly b)))"
proof (cases "odd (length b)")
  case True
  then show ?thesis by (simp add: isPuzzleSolvable_odd parityRule_def)
next
  case False
  then have e: "emptyRowIs b r" using assms by simp
  then obtain p where p: "findEmptyPosition b = Some p" "row p = int r"
    using findEmptyPosition_row by blast
  have r: "r < length b" using e by (simp add: emptyRowIs_def)
  have d: "int (length b) - int r = int (length b - r)" using r by simp
  have "isPuzzleSolvable b =
      (if odd (length b - r) then Inr (even (inversionsOf (tilesOnly b)))
       else Inr (odd (inversionsOf (tilesOnly b))))"
    using False p
    by (simp only: isPuzzleSolvable_def Let_def d jsRemainder_odd jsRemainder_even
        countInversions_rec option.case if_False)
  then show ?thesis using False by (simp add: parityRule_def Let_def)
qed

lemma scenarioB_unsolvable: "isPuzzleSolvable scenarioB = Inr False"
  unfolding scenarioB_def by code_simp

lemma emptyRowIs_scenarioB: "emptyRowIs scenarioB 3"
  unfolding scenarioB_def by code_simp

section \<open>The generator keeps the board solvable\<close>






















section \<open>Moves, undo and rejected moves\<close>

lemma clone2DArray_id [simp]: "clone2DArray b = b"
  by (simp add: clone2DArray_def)

lemma executeMove_result:
  assumes "executeMove now s tilePos emptyPos = (Inr md, s2)"
  shows "previousState md = currentState s \<and> moveHistory s2 = moveHistory s @ [md] \<and>
         moveCount s2 = moveCount s + 1 \<and> isComplete s2 = isComplete s \<and>
         maxMoves s2 = maxMoves s \<and> startTime s2 = startTime s"
  using assms
  by (auto simp: executeMove_def Let_def emit_def split: sum.splits)

lemma moveTile_accepted:
  assumes nc: "\<not> isComplete s" and mv: "moveTile now s r c = (Inr True, s1)"
    and ns: "\<not> isPuzzleSolved (currentState s1)" and bud: "moveCount s1 < maxMoves s1"
  shows "\<exists>md. previousState md = currentState s \<and> moveHistory s1 = moveHistory s @ [md] \<and>
              moveCount s1 = moveCount s + 1 \<and> \<not> isComplete s1"
proof -
  define s0 where "s0 = (if startTime s = None then s\<lparr>startTime := Some now\<rparr> else s)"
  have s0: "currentState s0 = currentState s" "moveHistory s0 = moveHistory s"
    "moveCount s0 = moveCount s" "isComplete s0 = isComplete s"
    by (simp_all add: s0_def)
  obtain ep where ep: "findEmptyPosition (currentState s0) = Some ep"
    using mv nc by (cases "findEmptyPosition (currentState s0)")
      (auto simp: moveTile_def Let_def s0_def split: if_splits)
  obtain res s2 where ex: "executeMove now s0 \<lparr>row = r, col = c\<rparr> ep = (res, s2)"
    by (cases "executeMove now s0 \<lparr>row = r, col = c\<rparr> ep")
  have mv': "moveTile now s r c =
      (case (res, s2) of
         (Inl e, s2) \<Rightarrow> (Inl e, s2)
       | (Inr md, s2) \<Rightarrow>
           if isPuzzleSolved (currentState s2)
           then (case handlePuzzleComplete now s2 of
                   (Inl e, s3) \<Rightarrow> (Inl e, s3) | (Inr u, s3) \<Rightarrow> (Inr True, s3))
           else if moveCount s2 \<ge> maxMoves s2
           then (case handleGameOver now s2 of
                   (Inl e, s3) \<Rightarrow> (Inl e, s3) | (Inr u, s3) \<Rightarrow> (Inr True, s3))
           else (Inr True, s2))"
    using mv nc ep ex
    by (auto simp: moveTile_def Let_def s0_def[symmetric] split: if_splits)
  obtain md where md: "res = Inr md" using mv mv' by (cases res) auto
  have hc: "currentState s3 = currentState s2 \<and> moveCount s3 = moveCount s2 \<and>
            maxMoves s3 = maxMoves s2"
    if "handlePuzzleComplete now s2 = (x, s3) \<or> handleGameOver now s2 = (x, s3)" for x s3
    using that
    by (auto simp: handlePuzzleComplete_def handleGameOver_def Let_def emit_def
        split: sum.splits)
  have "s1 = s2"
  proof (cases "isPuzzleSolved (currentState s2)")
    case True
    obtain x s3 where h: "handlePuzzleComplete now s2 = (x, s3)"
      by (cases "handlePuzzleComplete now s2")
    then have "s1 = s3" using mv mv' md True by (auto split: sum.splits)
    then show ?thesis using hc[of x s3] h True ns by simp
  next
    case False
    show ?thesis
    proof (cases "moveCount s2 \<ge> maxMoves s2")
      case True
      obtain x s3 where h: "handleGameOver now s2 = (x, s3)"
        by (cases "handleGameOver now s2")
      then have "s1 = s3" using mv mv' md True False by (auto split: sum.splits)
      then show ?thesis using hc[of x s3] h True bud by simp
    next
      case False2: False
      show ?thesis using mv mv' md False False2 by simp
    qed
  qed
  then show ?thesis
    using executeMove_result[of now s0 "\<lparr>row = r, col = c\<rparr>" ep md s2] ex md s0 nc
    by auto
qed

lemma move_undo:
  assumes nc: "\<not> isComplete s" and mv: "moveTile now s r c = (Inr True, s1)"
    and ns: "\<not> isPuzzleSolved (currentState s1)" and bud: "moveCount s1 < maxMoves s1"
  shows "\<exists>s2. undoLastMove s1 = (True, s2) \<and> currentState s2 = currentState s \<and>
              moveCount s2 = moveCount s \<and> moveHistory s2 = moveHistory s"
proof -
  obtain md where md: "previousState md = currentState s"
    "moveHistory s1 = moveHistory s @ [md]" "moveCount s1 = moveCount s + 1" "\<not> isComplete s1"
    using moveTile_accepted[OF assms] by blast
  then show ?thesis by (simp add: undoLastMove_def Let_def emit_def)
qed


lemma findEmptyPosition_unique:
  assumes sq: "squareBoard S b" and d: "distinct (concat b)" and p: "inBounds S p"
    and z: "readCell b p = Inr EMPTY_TILE"
  shows "findEmptyPosition b = Some p"
proof -
  have rows: "\<forall>rw \<in> set b. length rw = S" and lb: "length b = S"
    using sq by (simp_all add: squareBoard_def)
  have len: "length (concat b) = S * S" using concat_length_rect[OF rows] lb by simp
  have zp: "concat b ! flatIndex S p = EMPTY_TILE"
    using readCell_flat[OF sq p] z by simp
  have "flatIndex S p < length (concat b)" using flatIndex_less[OF p] len by simp
  then have "EMPTY_TILE \<in> set (concat b)" using zp by (metis nth_mem)
  then have "findRow b EMPTY_TILE 0 \<noteq> None" by (auto simp: findRow_None)
  then obtain q where q: "findRow b EMPTY_TILE 0 = Some q" by blast
  from findRow_Some[OF q] obtain i c where
    h: "q = \<lparr>row = int (0 + i), col = int c\<rparr>" "i < length b" "c < length (b ! i)"
       "b ! i ! c = EMPTY_TILE" by blast
  have ci: "c < S" using h(2,3) rows by simp
  have qb: "inBounds S q" using h(1,2) ci lb by (simp add: inBounds_def)
  have "concat b ! flatIndex S q = EMPTY_TILE"
    using concat_nth_rect[OF rows h(2) ci] h(1,4) by (simp add: flatIndex_def)
  then have "concat b ! flatIndex S q = concat b ! flatIndex S p" using zp by simp
  then have "flatIndex S q = flatIndex S p"
    using d flatIndex_less[OF qb] flatIndex_less[OF p] len
    by (simp add: nth_eq_iff_index_eq)
  then have "q = p" using flatIndex_inj[OF qb p] by simp
  then show ?thesis using q by (simp add: findEmptyPosition_def findPosition_def)
qed

lemma validateTileMove_empty:
  assumes sq: "squareBoard S b" and p: "inBounds S \<lparr>row = r, col = c\<rparr>"
    and z: "readCell b \<lparr>row = r, col = c\<rparr> = Inr EMPTY_TILE"
  shows "validateTileMove b r c =
           Inr \<lparr>valid = False, reason = ''Cannot move empty tile'',
                details = EmptyTileDetails \<lparr>row = r, col = c\<rparr>\<rparr>"
proof -
  have lb: "length b = S" and rows: "\<forall>rw \<in> set b. length rw = S"
    using sq by (simp_all add: squareBoard_def)
  have S: "0 < S" using p by (auto simp: inBounds_def)
  then have "length (b ! 0) = S" using rows lb by simp
  then have "getValueAt b r c = Inr (Some EMPTY_TILE)"
    using p z lb by (simp add: getValueAt_def inBounds_def)
  then show ?thesis
    using p lb by (simp add: validateTileMove_def isValidBoardPosition_def inBounds_def)
qed

lemma moveTile_empty:
  assumes sq: "squareBoard (boardSize s) (currentState s)"
    and d: "distinct (concat (currentState s))"
    and p: "inBounds (boardSize s) \<lparr>row = r, col = c\<rparr>"
    and z: "readCell (currentState s) \<lparr>row = r, col = c\<rparr> = Inr EMPTY_TILE"
    and nc: "\<not> isComplete s"
  shows "fst (moveTile now s r c) = Inr False \<and>
         emitted (snd (moveTile now s r c)) =
           emitted s @ [INVALID_MOVE ''Tile not adjacent to empty space''
                          \<lparr>row = r, col = c\<rparr> (Some \<lparr>row = r, col = c\<rparr>)] \<and>
         currentState (snd (moveTile now s r c)) = currentState s"
proof -
  have e: "findEmptyPosition (currentState s) = Some \<lparr>row = r, col = c\<rparr>"
    using findEmptyPosition_unique[OF sq d p z] .
  have na: "\<not> areAdjacent \<lparr>row = r, col = c\<rparr> \<lparr>row = r, col = c\<rparr>"
    by (simp add: areAdjacent_def)
  show ?thesis
    using nc p e na by (simp add: moveTile_def Let_def inBounds_def emit_def)
qed

lemma setPuzzleState_unsolvable:
  "isPuzzleSolvable b = Inr False \<Longrightarrow> length b = boardSize s \<Longrightarrow>
   setPuzzleState s b m = (Inl (Error ''Puzzle state is not solvable''), s)"
  by (simp add: setPuzzleState_def)

text \<open>A rejected move changes neither board, counters, history nor completion flag.\<close>

lemma moveTile_rejected_frame:
  assumes "moveTile now s r c = (Inr False, s1)"
  shows "currentState s1 = currentState s \<and> moveCount s1 = moveCount s \<and>
         moveHistory s1 = moveHistory s \<and> isComplete s1 = isComplete s \<and>
         initialState s1 = initialState s \<and> maxMoves s1 = maxMoves s"
proof (cases "isComplete s")
  case True
  then show ?thesis using assms by (simp add: moveTile_def)
next
  case False
  define s0 where "s0 = (if startTime s = None then s\<lparr>startTime := Some now\<rparr> else s)"
  have s0: "currentState s0 = currentState s" "moveHistory s0 = moveHistory s"
    "moveCount s0 = moveCount s" "isComplete s0 = isComplete s"
    "initialState s0 = initialState s" "maxMoves s0 = maxMoves s" "boardSize s0 = boardSize s"
    by (simp_all add: s0_def)
  show ?thesis
  proof (cases "r < 0 \<or> r \<ge> int (boardSize s) \<or> c < 0 \<or> c \<ge> int (boardSize s)")
    case True
    then have "s1 = emit (INVALID_MOVE ''Position out of bounds'' \<lparr>row = r, col = c\<rparr> None) s0"
      using assms False by (auto simp: moveTile_def Let_def s0_def)
    then show ?thesis using s0 by (simp add: emit_def)
  next
    case inb: False
    obtain ep where ep: "findEmptyPosition (currentState s0) = Some ep"
      using assms False inb by (cases "findEmptyPosition (currentState s0)")
        (auto simp: moveTile_def Let_def s0_def split: if_splits)
    show ?thesis
    proof (cases "areAdjacent \<lparr>row = r, col = c\<rparr> ep")
      case na: False
      then have "s1 = emit (INVALID_MOVE ''Tile not adjacent to empty space''
                              \<lparr>row = r, col = c\<rparr> (Some ep)) s0"
        using assms False inb ep by (auto simp: moveTile_def Let_def s0_def split: if_splits)
      then show ?thesis using s0 by (simp add: emit_def)
    next
      case True
      obtain res s2 where ex: "executeMove now s0 \<lparr>row = r, col = c\<rparr> ep = (res, s2)"
        by (cases "executeMove now s0 \<lparr>row = r, col = c\<rparr> ep")
      have "fst (moveTile now s r c) \<noteq> Inr False"
        using False inb ep True ex
        by (auto simp: moveTile_def Let_def s0_def[symmetric] s0(7) split: sum.splits prod.splits)
      then show ?thesis using assms by simp
    qed
  qed
qed

text \<open>An accepted move that solves the board completes the session, and undo then fails.\<close>

lemma winning_move_blocks_undo:
  assumes nc: "\<not> isComplete s" and mv: "moveTile now s r c = (Inr True, s1)"
    and sv: "isPuzzleSolved (currentState s1)"
  shows "isComplete s1 \<and> undoLastMove s1 = (False, s1)"
proof -
  define s0 where "s0 = (if startTime s = None then s\<lparr>startTime := Some now\<rparr> else s)"
  obtain ep where ep: "findEmptyPosition (currentState s0) = Some ep"
    using mv nc by (cases "findEmptyPosition (currentState s0)")
      (auto simp: moveTile_def Let_def s0_def split: if_splits)
  obtain res s2 where ex: "executeMove now s0 \<lparr>row = r, col = c\<rparr> ep = (res, s2)"
    by (cases "executeMove now s0 \<lparr>row = r, col = c\<rparr> ep")
  have mv': "moveTile now s r c =
      (case (res, s2) of
         (Inl e, s2) \<Rightarrow> (Inl e, s2)
       | (Inr md, s2) \<Rightarrow>
           if isPuzzleSolved (currentState s2)
           then (case handlePuzzleComplete now s2 of
                   (Inl e, s3) \<Rightarrow> (Inl e, s3) | (Inr u, s3) \<Rightarrow> (Inr True, s3))
           else if moveCount s2 \<ge> maxMoves s2
           then (case handleGameOver now s2 of
                   (Inl e, s3) \<Rightarrow> (Inl e, s3) | (Inr u, s3) \<Rightarrow> (Inr True, s3))
           else (Inr True, s2))"
    using mv nc ep ex
    by (auto simp: moveTile_def Let_def s0_def[symmetric] split: if_splits)
  obtain md where md: "res = Inr md" using mv mv' by (cases res) auto
  have hp: "isComplete s3" if "handlePuzzleComplete now s2 = (x, s3)" for x s3
    using that
    by (auto simp: handlePuzzleComplete_def Let_def emit_def split: sum.splits)
  have hg: "currentState s3 = currentState s2" if "handleGameOver now s2 = (x, s3)" for x s3
    using that
    by (auto simp: handleGameOver_def Let_def emit_def split: sum.splits)
  have "isComplete s1"
  proof (cases "isPuzzleSolved (currentState s2)")
    case True
    obtain x s3 where h: "handlePuzzleComplete now s2 = (x, s3)"
      by (cases "handlePuzzleComplete now s2")
    then have "s1 = s3" using mv mv' md True by (auto split: sum.splits)
    then show ?thesis using hp[OF h] by simp
  next
    case False
    show ?thesis
    proof (cases "moveCount s2 \<ge> maxMoves s2")
      case True
      obtain x s3 where h: "handleGameOver now s2 = (x, s3)"
        by (cases "handleGameOver now s2")
      then have "s1 = s3" using mv mv' md True False by (auto split: sum.splits)
      then show ?thesis using hg[OF h] False sv by simp
    next
      case False2: False
      have "s1 = s2" using mv mv' md False False2 by simp
      then show ?thesis using False sv by simp
    qed
  qed
  then show ?thesis by (simp add: undoLastMove_def)
qed

section \<open>Copies are fresh\<close>

lemma storeRows_shape:
  "storeRows h b = (rs, h1) \<Longrightarrow>
   h1 = h @ map RowObj b \<and> rs = [length h..<length h + length b]"
proof (induction b arbitrary: h rs h1)
  case Nil
  then show ?case by simp
next
  case (Cons xs rest)
  obtain as h2 where r: "storeRows (h @ [RowObj xs]) rest = (as, h2)"
    by (cases "storeRows (h @ [RowObj xs]) rest")
  from Cons.IH[OF r] have ih: "h2 = (h @ [RowObj xs]) @ map RowObj rest"
    "as = [Suc (length h)..<Suc (length h) + length rest]" by simp_all
  have eq: "rs = length h # as" "h1 = h2"
    using Cons.prems r by (simp_all add: alloc_def)
  have u: "[length h..<length h + length (xs # rest)] =
           length h # [Suc (length h)..<Suc (length h) + length rest]"
    by (simp add: upt_conv_Cons del: upt_Suc)
  show ?case unfolding u eq ih by simp
qed

lemma storeBoard_shape:
  assumes s: "storeBoard h b = (a, h')"
  shows "a = length h + length b"
    and "h' = h @ map RowObj b @ [ArrayObj [length h..<length h + length b]]"
proof -
  obtain rs h1 where r: "storeRows h b = (rs, h1)" by (cases "storeRows h b")
  from storeRows_shape[OF r] have h1: "h1 = h @ map RowObj b"
    and rs: "rs = [length h..<length h + length b]" by simp_all
  have "(a, h') = (length h1, h1 @ [ArrayObj rs])"
    using s r by (simp add: storeBoard_def alloc_def)
  then have a: "a = length h1" and h: "h' = h1 @ [ArrayObj rs]" by simp_all
  show "a = length h + length b" unfolding a h1 by simp
  show "h' = h @ map RowObj b @ [ArrayObj [length h..<length h + length b]]"
    unfolding h h1 rs by simp
qed

lemma clone_fresh:
  assumes c: "heapClone2DArray h a = Some (a', h')" and k: "k < length h"
  shows "heapWriteCell h' a' r c v ! k = h ! k \<and> length h \<le> a'"
proof -
  obtain b where b: "readBoard h a = Some b" "storeBoard h b = (a', h')"
    using c by (auto simp: heapClone2DArray_def split: option.splits)
  have a': "a' = length h + length b"
    and h': "h' = h @ map RowObj b @ [ArrayObj [length h..<length h + length b]]"
    using storeBoard_shape[OF b(2)] by simp_all
  have arr: "arrayAt h' a' = Some [length h..<length h + length b]"
    unfolding a' h' by (simp add: arrayAt_def nth_append)
  have hk: "h' ! k = h ! k" using k unfolding h' by (simp add: nth_append)
  have "heapWriteCell h' a' r c v ! k = h' ! k"
  proof (cases "r < length b")
    case True
    then have "[length h..<length h + length b] ! r = length h + r" by simp
    then show ?thesis using arr True k
      by (auto simp: heapWriteCell_def split: option.splits)
  next
    case False
    then show ?thesis using arr by (simp add: heapWriteCell_def)
  qed
  then show ?thesis using hk a' by simp
qed

section \<open>The claims\<close>

text \<open>
  Claim C1. \<open>isPuzzleSolvable\<close> returns what the parity rule says of the board size,
  the row of the empty cell and the number of index pairs \<open>i < j\<close> with
  \<open>value[i] > value[j]\<close> among the flattened values without the empty one: for an odd
  size, that the count is even; for an even size, that the count is even when the empty
  row counted from the bottom is odd and odd when it is even. The 4 by 4 board
  1, ..., 13, 15, 14, 0 is reported unsolvable.
\<close>

theorem isPuzzleSolvable_parity_rule:
  "(odd (length b) \<or> emptyRowIs b r \<longrightarrow>
      isPuzzleSolvable b = Inr (parityRule (length b) r (inversionCount (tilesOnly b))))
   \<and> isPuzzleSolvable scenarioB = Inr False"
  using isPuzzleSolvable_rule[of b r] scenarioB_unsolvable
  by (simp add: inversionCount_rec)

theorem isPuzzleSolvable_parity_rule_witness:
  "isPuzzleSolvable scenarioB =
     Inr (parityRule (length scenarioB) 3 (inversionCount (tilesOnly scenarioB))) \<and>
   odd (length [[1, 2, 3], [4, 5, 6], [7, 0, 8 :: int]]) \<and>
   isPuzzleSolvable [[1, 2, 3], [4, 5, 6], [7, 0, 8]] =
     Inr (parityRule (length [[1, 2, 3], [4, 5, 6], [7, 0, 8 :: int]]) 2
            (inversionCount (tilesOnly [[1, 2, 3], [4, 5, 6], [7, 0, 8]])))"
  using isPuzzleSolvable_parity_rule[of scenarioB 3]
    isPuzzleSolvable_parity_rule[of "[[1, 2, 3], [4, 5, 6], [7, 0, 8]]" 2]
    emptyRowIs_scenarioB
  by simp



text \<open>
  Claim C3 (evaluation at the failing input). The session with a budget of one move makes
  one move that does not solve the board; the move count then equals the budget. The
  completion flag stays false, and the next \<open>moveTile\<close> returns true, changes the board
  and raises the move count to 2; \<open>undoLastMove\<close> in the same state returns true and
  restores the board before the move.
\<close>

theorem moves_accepted_after_budget:
  "fst (moveTile 1000 budgetOneSession 1 0) = Inr True \<and>
   maxMoves afterBudgetMove = 1 \<and> moveCount afterBudgetMove = 1 \<and>
   \<not> isSolved afterBudgetMove \<and> \<not> isComplete afterBudgetMove \<and>
   currentState afterBudgetMove = [[1, 2, 3], [0, 5, 6], [4, 7, 8]] \<and>
   fst (moveTile 2000 afterBudgetMove 0 0) = Inr True \<and>
   currentState (snd (moveTile 2000 afterBudgetMove 0 0)) = [[0, 2, 3], [1, 5, 6], [4, 7, 8]] \<and>
   moveCount (snd (moveTile 2000 afterBudgetMove 0 0)) = 2 \<and>
   fst (undoLastMove afterBudgetMove) = True \<and>
   currentState (snd (undoLastMove afterBudgetMove)) = [[1, 2, 3], [4, 5, 6], [0, 7, 8]] \<and>
   moveCount (snd (undoLastMove afterBudgetMove)) = 0"
  unfolding afterBudgetMove_def budgetOneSession_def by code_simp

text \<open>
  Claim C4, as stated, fails: in scenario A the move at row 2, column 2 is accepted and
  solves the board; the session is then complete, \<open>undoLastMove\<close> returns false, and the
  board, the move count and the history length stay those after the move.
\<close>

theorem winning_move_undo_counterexample:
  "\<not> isComplete sessionA \<and> fst (moveTile 1000 sessionA 2 2) = Inr True \<and>
   fst (undoLastMove (snd (moveTile 1000 sessionA 2 2))) = False \<and>
   currentState (snd (undoLastMove (snd (moveTile 1000 sessionA 2 2)))) \<noteq> currentState sessionA \<and>
   moveCount (snd (undoLastMove (snd (moveTile 1000 sessionA 2 2)))) \<noteq> moveCount sessionA \<and>
   length (moveHistory (snd (undoLastMove (snd (moveTile 1000 sessionA 2 2))))) \<noteq>
     length (moveHistory sessionA)"
  unfolding sessionA_def scenarioA_def by code_simp

text \<open>
  Claim C4, amended. In a session that is not complete, an accepted move that leaves the
  board unsolved and the move count below the budget, followed at once by
  \<open>undoLastMove\<close>, restores the board, the move count and the length of the move history.
\<close>

theorem move_undo_roundtrip:
  "\<not> isComplete s \<Longrightarrow> moveTile now s r c = (Inr True, s1) \<Longrightarrow>
   \<not> isPuzzleSolved (currentState s1) \<Longrightarrow> moveCount s1 < maxMoves s1 \<Longrightarrow>
   \<exists>s2. undoLastMove s1 = (True, s2) \<and> currentState s2 = currentState s \<and>
        moveCount s2 = moveCount s \<and> length (moveHistory s2) = length (moveHistory s)"
  using move_undo[of s now r c s1] by auto

theorem move_undo_roundtrip_witness:
  "\<exists>s2. undoLastMove (snd (moveTile 1000 sessionA 1 1)) = (True, s2) \<and>
        currentState s2 = currentState sessionA \<and> moveCount s2 = moveCount sessionA \<and>
        length (moveHistory s2) = length (moveHistory sessionA)"
proof -
  have 1: "\<not> isComplete sessionA"
    unfolding sessionA_def scenarioA_def by code_simp
  have "fst (moveTile 1000 sessionA 1 1) = Inr True"
    unfolding sessionA_def scenarioA_def by code_simp
  then have 2: "moveTile 1000 sessionA 1 1 = (Inr True, snd (moveTile 1000 sessionA 1 1))"
    by (metis prod.collapse)
  have 3: "\<not> isPuzzleSolved (currentState (snd (moveTile 1000 sessionA 1 1)))"
    unfolding sessionA_def scenarioA_def by code_simp
  have 4: "moveCount (snd (moveTile 1000 sessionA 1 1)) < maxMoves (snd (moveTile 1000 sessionA 1 1))"
    unfolding sessionA_def scenarioA_def by code_simp
  show ?thesis using move_undo_roundtrip[OF 1 2 3 4] .
qed

text \<open>
  Claim C5 (evaluation at the failing input). In scenario A, with the timer not started,
  the move at row 0, column 0 is rejected as not adjacent and the move at row 5,
  column 5 as out of bounds; both return false, and both leave the start timestamp set
  to the clock reading.
\<close>

theorem rejected_move_sets_startTime:
  "\<not> isComplete sessionA \<and> startTime sessionA = None \<and>
   fst (moveTile 1000 sessionA 0 0) = Inr False \<and>
   startTime (snd (moveTile 1000 sessionA 0 0)) = Some 1000 \<and>
   fst (moveTile 1000 sessionA 5 5) = Inr False \<and>
   startTime (snd (moveTile 1000 sessionA 5 5)) = Some 1000"
  unfolding sessionA_def scenarioA_def by code_simp

text \<open>
  Claim C6, as stated, fails: for the unsolvable board of scenario B, \<open>setPuzzleState\<close>
  does not return; it throws the error "Puzzle state is not solvable".
\<close>

theorem setPuzzleState_unsolvable_counterexample:
  "isPuzzleSolvable scenarioB = Inr False \<and>
   fst (setPuzzleState (newPuzzle 4) scenarioB 100) \<noteq> Inr () \<and>
   fst (setPuzzleState (newPuzzle 4) scenarioB 100) = Inl (Error ''Puzzle state is not solvable'')"
  unfolding scenarioB_def by code_simp

text \<open>
  Claim C6, amended. When the board has as many rows as the session's size and
  \<open>isPuzzleSolvable\<close> returns false on it, \<open>setPuzzleState\<close> throws the error
  "Puzzle state is not solvable" and leaves every field of the session as it was.
\<close>

theorem setPuzzleState_unsolvable_throws:
  "isPuzzleSolvable b = Inr False \<Longrightarrow> length b = boardSize s \<Longrightarrow>
   setPuzzleState s b m = (Inl (Error ''Puzzle state is not solvable''), s)"
  by (rule setPuzzleState_unsolvable)

theorem setPuzzleState_unsolvable_throws_witness:
  "setPuzzleState sessionA [[1, 2, 3], [4, 5, 6], [8, 7, 0]] 50 =
     (Inl (Error ''Puzzle state is not solvable''), sessionA)"
proof -
  have 1: "isPuzzleSolvable [[1, 2, 3], [4, 5, 6], [8, 7, 0]] = Inr False" by code_simp
  have 2: "length [[1, 2, 3], [4, 5, 6], [8, 7, 0 :: int]] = boardSize sessionA"
    unfolding sessionA_def scenarioA_def by code_simp
  show ?thesis using setPuzzleState_unsolvable_throws[OF 1 2] .
qed

text \<open>
  Claim C7. For the board of scenario A, \<open>getValidMoves\<close> returns tile 5 (up), tile 7
  (left) and tile 8 (right), in this order; the move at row 2, column 2 is accepted and
  yields the board 1, ..., 8, 0, which is the solved board of size 3; \<open>isSolved\<close> is
  false before the move and true after it.
\<close>

theorem scenarioA_validMoves_and_solve:
  "getValidMoves scenarioA =
     Inr [\<lparr>moveRow = 1, moveCol = 1, moveTileValue = Some 5, moveDirection = ''up''\<rparr>,
          \<lparr>moveRow = 2, moveCol = 0, moveTileValue = Some 7, moveDirection = ''left''\<rparr>,
          \<lparr>moveRow = 2, moveCol = 2, moveTileValue = Some 8, moveDirection = ''right''\<rparr>] \<and>
   currentState sessionA = scenarioA \<and>
   \<not> isSolved sessionA \<and>
   fst (moveTile 1000 sessionA 2 2) = Inr True \<and>
   currentState (snd (moveTile 1000 sessionA 2 2)) = [[1, 2, 3], [4, 5, 6], [7, 8, 0]] \<and>
   createSolvedPuzzle 3 = [[1, 2, 3], [4, 5, 6], [7, 8, 0]] \<and>
   isSolved (snd (moveTile 1000 sessionA 2 2))"
  unfolding sessionA_def scenarioA_def by code_simp

text \<open>
  Claim C8, as stated, fails on the path of the session: in scenario A the cell at row 2,
  column 1 holds the empty value, and \<open>moveTile\<close> there returns false with the reason
  "Tile not adjacent to empty space".
\<close>

theorem moveTile_empty_reason_counterexample:
  "readCell (currentState sessionA) \<lparr>row = 2, col = 1\<rparr> = Inr EMPTY_TILE \<and>
   fst (moveTile 1000 sessionA 2 1) = Inr False \<and>
   emitted (snd (moveTile 1000 sessionA 2 1)) =
     emitted sessionA @ [INVALID_MOVE ''Tile not adjacent to empty space''
                           \<lparr>row = 2, col = 1\<rparr> (Some \<lparr>row = 2, col = 1\<rparr>)]"
  unfolding sessionA_def scenarioA_def by code_simp

text \<open>
  Claim C8, amended. For a square board with distinct values and a position inside it
  that holds the empty value: \<open>validateTileMove\<close> fails with the reason
  "Cannot move empty tile"; \<open>moveTile\<close> on a session that is not complete also fails and
  leaves the board as it was, and the reason it reports is
  "Tile not adjacent to empty space".
\<close>

theorem empty_tile_rejected:
  "squareBoard (boardSize s) (currentState s) \<Longrightarrow> distinct (concat (currentState s)) \<Longrightarrow>
   inBounds (boardSize s) \<lparr>row = r, col = c\<rparr> \<Longrightarrow>
   readCell (currentState s) \<lparr>row = r, col = c\<rparr> = Inr EMPTY_TILE \<Longrightarrow> \<not> isComplete s \<Longrightarrow>
   validateTileMove (currentState s) r c =
     Inr \<lparr>valid = False, reason = ''Cannot move empty tile'',
          details = EmptyTileDetails \<lparr>row = r, col = c\<rparr>\<rparr> \<and>
   fst (moveTile now s r c) = Inr False \<and>
   emitted (snd (moveTile now s r c)) =
     emitted s @ [INVALID_MOVE ''Tile not adjacent to empty space''
                    \<lparr>row = r, col = c\<rparr> (Some \<lparr>row = r, col = c\<rparr>)] \<and>
   currentState (snd (moveTile now s r c)) = currentState s"
  using validateTileMove_empty[of "boardSize s" "currentState s" r c]
    moveTile_empty[of s r c now]
  by simp

theorem empty_tile_rejected_witness:
  "validateTileMove (currentState budgetOneSession) 2 0 =
     Inr \<lparr>valid = False, reason = ''Cannot move empty tile'',
          details = EmptyTileDetails \<lparr>row = 2, col = 0\<rparr>\<rparr> \<and>
   fst (moveTile 7 budgetOneSession 2 0) = Inr False \<and>
   emitted (snd (moveTile 7 budgetOneSession 2 0)) =
     emitted budgetOneSession @ [INVALID_MOVE ''Tile not adjacent to empty space''
                    \<lparr>row = 2, col = 0\<rparr> (Some \<lparr>row = 2, col = 0\<rparr>)] \<and>
   currentState (snd (moveTile 7 budgetOneSession 2 0)) = currentState budgetOneSession"
proof -
  have 1: "squareBoard (boardSize budgetOneSession) (currentState budgetOneSession)"
    unfolding budgetOneSession_def by code_simp
  have 2: "distinct (concat (currentState budgetOneSession))"
    unfolding budgetOneSession_def by code_simp
  have 3: "inBounds (boardSize budgetOneSession) \<lparr>row = 2, col = 0\<rparr>"
    unfolding budgetOneSession_def by code_simp
  have 4: "readCell (currentState budgetOneSession) \<lparr>row = 2, col = 0\<rparr> = Inr EMPTY_TILE"
    unfolding budgetOneSession_def by code_simp
  have 5: "\<not> isComplete budgetOneSession"
    unfolding budgetOneSession_def by code_simp
  show ?thesis using empty_tile_rejected[OF 1 2 3 4 5] .
qed

text \<open>
  Claim C9 (evaluation at the failing input). For \<open>new Puzzle(3)\<close>, the board reference in
  the object returned by \<open>exportState\<close> is the session's own reference: after the caller's
  assignment \<open>board[0][0] = 9\<close> through it, the session's board and the result of
  \<open>getCurrentState\<close> hold 9 in that cell. The same assignment through the reference
  returned by \<open>getCurrentState\<close> leaves the session's board as it was.
\<close>

theorem exportState_aliases_board:
  "heapNewPuzzle 3 = Some (exampleSession, exampleHeap) \<and>
   readBoard exampleHeap (hpCurrentState exampleSession) = Some [[1, 2, 3], [4, 5, 6], [7, 8, 0]] \<and>
   exCurrentState (heapExportState exampleSession) = hpCurrentState exampleSession \<and>
   readBoard (heapWriteCell exampleHeap (exCurrentState (heapExportState exampleSession)) 0 0 9)
     (hpCurrentState exampleSession) = Some [[9, 2, 3], [4, 5, 6], [7, 8, 0]] \<and>
   resultBoard (heapGetCurrentState
       (heapWriteCell exampleHeap (exCurrentState (heapExportState exampleSession)) 0 0 9)
       exampleSession) = Some [[9, 2, 3], [4, 5, 6], [7, 8, 0]] \<and>
   readBoard (writeResult (heapGetCurrentState exampleHeap exampleSession) 0 0 9)
     (hpCurrentState exampleSession) = Some [[1, 2, 3], [4, 5, 6], [7, 8, 0]]"
  unfolding exampleSession_def exampleHeap_def by code_simp

text \<open>
  Claim C10. In every session state, \<open>getMovesRemaining\<close> is the larger of 0 and the budget
  minus the move count, hence never negative; in the state reached by two moves on a
  budget of one, the move count exceeds the budget and the result is 0.
\<close>

theorem getMovesRemaining_nonnegative:
  "getMovesRemaining s = max 0 (maxMoves s - moveCount s) \<and> 0 \<le> getMovesRemaining s \<and>
   maxMoves (snd (moveTile 2000 afterBudgetMove 0 0))
     < moveCount (snd (moveTile 2000 afterBudgetMove 0 0)) \<and>
   getMovesRemaining (snd (moveTile 2000 afterBudgetMove 0 0)) = 0"
proof -
  have "maxMoves (snd (moveTile 2000 afterBudgetMove 0 0))
          < moveCount (snd (moveTile 2000 afterBudgetMove 0 0)) \<and>
        getMovesRemaining (snd (moveTile 2000 afterBudgetMove 0 0)) = 0"
    unfolding afterBudgetMove_def budgetOneSession_def by code_simp
  then show ?thesis by (simp add: getMovesRemaining_def)
qed

end
